theory Spec2Isabelle
  imports Main "HOL-Library.Word" "HOL-Library.Sublist" "HOL-Library.AList"
begin

section \<open>Scope Shield Bot: thread store, assistant adapter and webhook handler\<close>

text \<open>
  A shallow embedding of \<^verbatim>\<open>src/index.js\<close>. The program is sequential per request; every
  \<^verbatim>\<open>await\<close> is modelled as an ordinary call whose answer is supplied by a \<open>world\<close>
  record (the external collaborators: assistant backend, chat transport, file system).
  Interleaving of two requests at an \<^verbatim>\<open>await\<close> is outside the model.
\<close>

subsection \<open>JavaScript strings\<close>

text \<open>
  A JavaScript string is a sequence of 16-bit code units. \<open>js\<close> embeds an ASCII literal.
\<close>

type_synonym code_unit = "16 word"
type_synonym jsstring = "code_unit list"

definition js :: "string \<Rightarrow> jsstring" where
  "js s = map of_char s"

text \<open>
  \<^verbatim>\<open>String.prototype.trim\<close> strips the ECMAScript WhiteSpace and LineTerminator code
  points from both ends: TAB, LF, VT, FF, CR, SP, NBSP, U+1680, U+2000..U+200A, U+2028,
  U+2029, U+202F, U+205F, U+3000 and U+FEFF.
\<close>

definition isWhiteSpace :: "code_unit \<Rightarrow> bool" where
  "isWhiteSpace c \<longleftrightarrow>
     c = 0x9 \<or> c = 0xA \<or> c = 0xB \<or> c = 0xC \<or> c = 0xD \<or> c = 0x20 \<or> c = 0xA0 \<or>
     c = 0x1680 \<or> (0x2000 \<le> c \<and> c \<le> 0x200A) \<or> c = 0x2028 \<or> c = 0x2029 \<or>
     c = 0x202F \<or> c = 0x205F \<or> c = 0x3000 \<or> c = 0xFEFF"

definition trim :: "jsstring \<Rightarrow> jsstring" where
  "trim s = rev (dropWhile isWhiteSpace (rev (dropWhile isWhiteSpace s)))"

text \<open>\<^verbatim>\<open>s.includes(t)\<close>: \<open>t\<close> occurs in \<open>s\<close> as a contiguous run of code units.\<close>

fun includes_js :: "jsstring \<Rightarrow> jsstring \<Rightarrow> bool" where
  "includes_js [] t = (t = [])"
| "includes_js (c # cs) t = (prefix t (c # cs) \<or> includes_js cs t)"

text \<open>
  \<^verbatim>\<open>s.replace(p, r)\<close> with a string pattern: only the first occurrence of \<open>p\<close> is
  replaced; \<open>s\<close> is returned unchanged when \<open>p\<close> does not occur. The replacement is taken
  literally (the program only ever passes the empty string, which has no \<^verbatim>\<open>$\<close> pattern).
\<close>

fun replace :: "jsstring \<Rightarrow> jsstring \<Rightarrow> jsstring \<Rightarrow> jsstring" where
  "replace [] p r = (if p = [] then r else [])"
| "replace (c # cs) p r =
     (if prefix p (c # cs) then r @ drop (length p) (c # cs) else c # replace cs p r)"

subsection \<open>Numbers in template literals\<close>

text \<open>
  Telegram identifiers are integer-valued numbers. For an integer of magnitude below
  \<open>10^21\<close>, \<^verbatim>\<open>`${n}`\<close> is its decimal numeral, with a leading minus sign when negative
  (group chat ids are negative). \<^verbatim>\<open>`${undefined}`\<close> is the text \<^verbatim>\<open>undefined\<close>.
\<close>

definition digit :: "nat \<Rightarrow> code_unit" where
  "digit d = of_nat (48 + d)"

fun decimal :: "nat \<Rightarrow> jsstring" where
  "decimal n = (if n < 10 then [digit n] else decimal (n div 10) @ [digit (n mod 10)])"

declare decimal.simps [simp del]

definition Number_toString :: "int \<Rightarrow> jsstring" where
  "Number_toString i = (if i < 0 then js ''-'' @ decimal (nat (- i)) else decimal (nat i))"

fun ToString :: "int option \<Rightarrow> jsstring" where
  "ToString None = js ''undefined''"
| "ToString (Some i) = Number_toString i"

subsection \<open>Thread persistence (lines 39-72)\<close>

text \<open>
  The \<^verbatim>\<open>threads\<close> object maps key strings to thread ids. Its own string keys are kept in
  insertion order, which is also the order \<^verbatim>\<open>JSON.stringify\<close> writes them in; so it is an
  association list, assignment to a key is \<open>AList.update\<close> (in place for an existing
  key, at the end for a new one) and a property read is \<open>map_of\<close>. Every key the program
  uses contains a colon, so no read reaches a property of \<^verbatim>\<open>Object.prototype\<close>.
\<close>

type_synonym thread_map = "(jsstring \<times> jsstring) list"

text \<open>
  What \<^verbatim>\<open>/data/threads.json\<close> holds: nothing, text that \<^verbatim>\<open>JSON.parse\<close> rejects, or the
  serialisation of an object with string values (\<^verbatim>\<open>JSON.stringify(threads, null, 2)\<close> is
  kept abstract as the snapshot of the object it serialises).
\<close>

datatype file_content = NoFile | Malformed | Json thread_map

datatype js_error = Error (message: jsstring)

datatype content_part = TextContent jsstring | NonTextContent

record thread_message =
  role :: jsstring
  content :: "content_part list"

text \<open>Every call that leaves the process, in the order it is made.\<close>

datatype effect =
    ThreadsCreate
  | WriteFile thread_map
  | MessagesCreate jsstring jsstring
  | RunsCreateAndPoll jsstring jsstring
  | MessagesList jsstring nat
  | SendMessage int jsstring "int option"
  | ConsoleError jsstring
  | SendStatus nat

text \<open>
  The answers of the external collaborators. \<open>threads_create\<close> is the \<^verbatim>\<open>id\<close> of the
  thread that \<^verbatim>\<open>openai.beta.threads.create()\<close> returns, \<open>runs_createAndPoll\<close> the
  \<^verbatim>\<open>status\<close> of the finished run, \<open>messages_list\<close> the \<^verbatim>\<open>data\<close> array. \<open>sendMessage\<close>
  takes chat id, text and the optional \<^verbatim>\<open>reply_to_message_id\<close>. \<open>torn_write\<close> is what a
  failed \<^verbatim>\<open>writeFileSync\<close> leaves in the file.
\<close>

record world =
  threads_create :: "js_error + jsstring"
  messages_create :: "jsstring \<Rightarrow> jsstring \<Rightarrow> js_error + unit"
  runs_createAndPoll :: "jsstring \<Rightarrow> jsstring \<Rightarrow> js_error + jsstring"
  messages_list :: "jsstring \<Rightarrow> nat \<Rightarrow> js_error + thread_message list"
  sendMessage :: "int \<Rightarrow> jsstring \<Rightarrow> int option \<Rightarrow> js_error + unit"
  writeFileSync :: "thread_map \<Rightarrow> js_error + unit"
  torn_write :: file_content

record state =
  threads :: thread_map
  THREADS_FILE :: file_content
  trace :: "effect list"

definition emit :: "effect \<Rightarrow> state \<Rightarrow> state" where
  "emit e s = s\<lparr>trace := trace s @ [e]\<rparr>"

text \<open>Lines 42-50: the object the process starts with.\<close>

fun load :: "file_content \<Rightarrow> thread_map" where
  "load NoFile = []"
| "load Malformed = []"
| "load (Json m) = m"

definition boot :: "file_content \<Rightarrow> state" where
  "boot f = \<lparr>threads = load f, THREADS_FILE = f, trace = []\<rparr>"

definition saveThreads :: "world \<Rightarrow> state \<Rightarrow> (js_error + unit) \<times> state" where
  "saveThreads w s =
     (let s1 = emit (WriteFile (threads s)) s in
      case writeFileSync w (threads s) of
        Inl e \<Rightarrow> (Inl e, s1\<lparr>THREADS_FILE := torn_write w\<rparr>)
      | Inr u \<Rightarrow> (Inr (), s1\<lparr>THREADS_FILE := Json (threads s)\<rparr>))"

definition getThreadKey :: "int \<Rightarrow> int option \<Rightarrow> jsstring" where
  "getThreadKey chatId userId = Number_toString chatId @ js '':'' @ ToString userId"

text \<open>
  \<^verbatim>\<open>if (threads[key])\<close> tests truthiness: a missing key gives \<^verbatim>\<open>undefined\<close> and the
  empty string is falsy as well.
\<close>

definition truthy :: "jsstring option \<Rightarrow> bool" where
  "truthy v \<longleftrightarrow> (case v of None \<Rightarrow> False | Some x \<Rightarrow> x \<noteq> [])"

definition getOrCreateThread ::
  "world \<Rightarrow> int \<Rightarrow> int option \<Rightarrow> state \<Rightarrow> (js_error + jsstring) \<times> state" where
  "getOrCreateThread w chatId userId s =
     (let key = getThreadKey chatId userId in
      if truthy (map_of (threads s) key) then (Inr (the (map_of (threads s) key)), s)
      else
        (let s1 = emit ThreadsCreate s in
         (case threads_create w of
            Inl e \<Rightarrow> (Inl e, s1)
          | Inr thread_id \<Rightarrow>
              (let s2 = s1\<lparr>threads := AList.update key thread_id (threads s1)\<rparr> in
               (case saveThreads w s2 of
                  (Inl e, s3) \<Rightarrow> (Inl e, s3)
                | (Inr u, s3) \<Rightarrow> (Inr thread_id, s3))))))"

subsection \<open>Assistant interaction (lines 74-103)\<close>

record config =
  BOT_USERNAME :: jsstring
  ASSISTANT_ID :: jsstring

text \<open>Line 16: the bot name used when the environment gives none.\<close>

definition default_config :: "jsstring \<Rightarrow> config" where
  "default_config assistant = \<lparr>BOT_USERNAME = js ''ScopeShield_Bot'', ASSISTANT_ID = assistant\<rparr>"

definition no_response :: jsstring where
  "no_response = js ''No response generated.''"

text \<open>
  Lines 95-102: \<^verbatim>\<open>find\<close> takes the first element of \<^verbatim>\<open>messages.data\<close> whose role is
  \<^verbatim>\<open>assistant\<close> (the backend lists the newest message first); the optional chain
  \<^verbatim>\<open>?.content?.[0]?.text?.value\<close> is \<^verbatim>\<open>undefined\<close> when any link is missing, and
  \<^verbatim>\<open>||\<close> replaces \<^verbatim>\<open>undefined\<close> and the empty string alike.
\<close>

definition assistantMessage :: "thread_message list \<Rightarrow> thread_message option" where
  "assistantMessage data = find (\<lambda>m. role m = js ''assistant'') data"

fun text_value :: "content_part \<Rightarrow> jsstring option" where
  "text_value (TextContent v) = Some v"
| "text_value NonTextContent = None"

definition first_text_value :: "thread_message option \<Rightarrow> jsstring option" where
  "first_text_value am =
     (case am of
        None \<Rightarrow> None
      | Some m \<Rightarrow> (case content m of [] \<Rightarrow> None | p # ps \<Rightarrow> text_value p))"

definition reply_text :: "thread_message list \<Rightarrow> jsstring" where
  "reply_text data =
     (let v = first_text_value (assistantMessage data) in
      if truthy v then the v else no_response)"

definition runAssistant ::
  "config \<Rightarrow> world \<Rightarrow> int \<Rightarrow> int option \<Rightarrow> jsstring \<Rightarrow> state \<Rightarrow> (js_error + jsstring) \<times> state"
  where
  "runAssistant cfg w chatId userId userText s =
     (case getOrCreateThread w chatId userId s of
        (Inl e, s1) \<Rightarrow> (Inl e, s1)
      | (Inr threadId, s1) \<Rightarrow>
          (let s2 = emit (MessagesCreate threadId userText) s1 in
           (case messages_create w threadId userText of
              Inl e \<Rightarrow> (Inl e, s2)
            | Inr u \<Rightarrow>
                (let s3 = emit (RunsCreateAndPoll threadId (ASSISTANT_ID cfg)) s2 in
                 (case runs_createAndPoll w threadId (ASSISTANT_ID cfg) of
                    Inl e \<Rightarrow> (Inl e, s3)
                  | Inr status \<Rightarrow>
                      if status \<noteq> js ''completed''
                      then (Inl (Error (js ''Assistant run failed with status: '' @ status)), s3)
                      else
                        (let s4 = emit (MessagesList threadId 5) s3 in
                         (case messages_list w threadId 5 of
                            Inl e \<Rightarrow> (Inl e, s4)
                          | Inr data \<Rightarrow> (Inr (reply_text data), s4))))))))"

subsection \<open>Webhook endpoint (lines 114-150)\<close>

record chat =
  chat_id :: int
  chat_type :: jsstring

record user =
  user_id :: int

text \<open>
  The \<^verbatim>\<open>message\<close> object of a Telegram update: \<^verbatim>\<open>chat\<close> and \<^verbatim>\<open>message_id\<close> are always
  there, \<^verbatim>\<open>from\<close> and \<^verbatim>\<open>text\<close> are optional, and \<^verbatim>\<open>text\<close> is a string when present.
\<close>

record message =
  msg_chat :: chat
  msg_from :: "user option"
  msg_text :: "jsstring option"
  message_id :: int

definition mentionTag :: "config \<Rightarrow> jsstring" where
  "mentionTag cfg = js ''@'' @ BOT_USERNAME cfg"

definition error_reply :: jsstring where
  "error_reply = js ''Error processing your request.''"

text \<open>
  Lines 124-137, for a message whose text \<open>raw\<close> is truthy: \<open>None\<close> when the message is
  ignored (line 131), otherwise the text handed to \<open>runAssistant\<close>.
\<close>

definition clean_text :: "config \<Rightarrow> message \<Rightarrow> jsstring \<Rightarrow> jsstring option" where
  "clean_text cfg m raw =
     (let text = trim raw;
          isPrivate = (chat_type (msg_chat m) = js ''private'')
      in if \<not> isPrivate \<and> \<not> includes_js text (mentionTag cfg) then None
         else Some (if \<not> isPrivate then trim (replace text (mentionTag cfg) []) else text))"

definition res_sendStatus :: "nat \<Rightarrow> state \<Rightarrow> (js_error + unit) \<times> state" where
  "res_sendStatus code s = (Inr (), emit (SendStatus code) s)"

definition bot_sendMessage ::
  "world \<Rightarrow> int \<Rightarrow> jsstring \<Rightarrow> int option \<Rightarrow> state \<Rightarrow> (js_error + unit) \<times> state" where
  "bot_sendMessage w chatId txt reply_to s =
     (sendMessage w chatId txt reply_to, emit (SendMessage chatId txt reply_to) s)"

text \<open>Lines 139-143, the body of \<^verbatim>\<open>try\<close>.\<close>

definition try_block ::
  "config \<Rightarrow> world \<Rightarrow> message \<Rightarrow> jsstring \<Rightarrow> state \<Rightarrow> (js_error + unit) \<times> state" where
  "try_block cfg w m txt s =
     (case runAssistant cfg w (chat_id (msg_chat m)) (map_option user_id (msg_from m)) txt s of
        (Inl e, s1) \<Rightarrow> (Inl e, s1)
      | (Inr reply, s1) \<Rightarrow>
          bot_sendMessage w (chat_id (msg_chat m)) reply (Some (message_id m)) s1)"

text \<open>Lines 144-147, the body of \<^verbatim>\<open>catch\<close>; an error raised here leaves the handler.\<close>

definition catch_block ::
  "world \<Rightarrow> message \<Rightarrow> js_error \<Rightarrow> state \<Rightarrow> (js_error + unit) \<times> state" where
  "catch_block w m err s =
     bot_sendMessage w (chat_id (msg_chat m)) error_reply None
       (emit (ConsoleError (js ''Assistant error: '' @ message err)) s)"

text \<open>Lines 139-149: \<^verbatim>\<open>try\<close>, \<^verbatim>\<open>catch\<close> and the acknowledgement after them.\<close>

definition dispatch ::
  "config \<Rightarrow> world \<Rightarrow> message \<Rightarrow> jsstring \<Rightarrow> state \<Rightarrow> (js_error + unit) \<times> state" where
  "dispatch cfg w m txt s =
     (case try_block cfg w m txt s of
        (Inr u, s1) \<Rightarrow> res_sendStatus 200 s1
      | (Inl err, s1) \<Rightarrow>
          (case catch_block w m err s1 of
             (Inl e, s2) \<Rightarrow> (Inl e, s2)
           | (Inr u, s2) \<Rightarrow> res_sendStatus 200 s2))"

text \<open>
  The handler of \<^verbatim>\<open>app.post\<close>. Its argument is \<^verbatim>\<open>req.body?.message\<close>. The result
  \<open>Inl e\<close> means that the handler's promise is rejected with \<open>e\<close>: nothing has been
  sent on \<^verbatim>\<open>res\<close>.
\<close>

definition webhook ::
  "config \<Rightarrow> world \<Rightarrow> message option \<Rightarrow> state \<Rightarrow> (js_error + unit) \<times> state" where
  "webhook cfg w body s =
     (case body of
        None \<Rightarrow> res_sendStatus 200 s
      | Some m \<Rightarrow>
          (case msg_text m of
             None \<Rightarrow> res_sendStatus 200 s
           | Some raw \<Rightarrow>
               if raw = [] then res_sendStatus 200 s
               else
                 (case clean_text cfg m raw of
                    None \<Rightarrow> res_sendStatus 200 s
                  | Some txt \<Rightarrow> dispatch cfg w m txt s)))"

subsection \<open>Auxiliary notions for the proofs\<close>

text \<open>The number a decimal numeral denotes; it inverts \<open>decimal\<close>.\<close>

definition undecimal :: "jsstring \<Rightarrow> nat" where
  "undecimal s = foldl (\<lambda>a c. 10 * a + (unat c - 48)) 0 s"

text \<open>A string made of white space only.\<close>

definition blank :: "jsstring \<Rightarrow> bool" where
  "blank s \<longleftrightarrow> list_all isWhiteSpace s"

text \<open>The calls to the chat transport among the effects.\<close>

fun is_send :: "effect \<Rightarrow> bool" where
  "is_send (SendMessage c t r) = True"
| "is_send e = False"

text \<open>
  The states of a sequential execution. The process starts from the file; the file is
  only ever written by \<open>saveThreads\<close>, so the ids in it are ids the backend issued, and
  an id of the backend is a non-empty string. A JSON object has each key once.
\<close>

definition ids_nonempty :: "thread_map \<Rightarrow> bool" where
  "ids_nonempty m \<longleftrightarrow> list_all (\<lambda>kv. snd kv \<noteq> []) m"

inductive reachable :: "config \<Rightarrow> state \<Rightarrow> bool" for cfg :: config where
  start: "ids_nonempty (load f) \<Longrightarrow> distinct (map fst (load f)) \<Longrightarrow> reachable cfg (boot f)"
| request: "reachable cfg s \<Longrightarrow> threads_create w \<noteq> Inr [] \<Longrightarrow>
     webhook cfg w body s = (r, s') \<Longrightarrow> reachable cfg s'"

text \<open>
  The texts appended to threads among the effects: thread id and content of every
  \<^verbatim>\<open>openai.beta.threads.messages.create\<close> call, in order.
\<close>

fun forwarded :: "effect list \<Rightarrow> (jsstring \<times> jsstring) list" where
  "forwarded [] = []"
| "forwarded (MessagesCreate thread c # es) = (thread, c) # forwarded es"
| "forwarded (e # es) = forwarded es"


subsection \<open>Sample collaborators and messages\<close>

text \<open>A backend, transport and file system that answer every call.\<close>

definition ok_world :: world where
  "ok_world =
     \<lparr>threads_create = Inr (js ''thread_1''),
      messages_create = (\<lambda>thread txt. Inr ()),
      runs_createAndPoll = (\<lambda>thread assistant. Inr (js ''completed'')),
      messages_list = (\<lambda>thread limit.
         Inr [\<lparr>role = js ''assistant'', content = [TextContent (js ''Hello'')]\<rparr>,
              \<lparr>role = js ''user'', content = [TextContent (js ''hi'')]\<rparr>]),
      sendMessage = (\<lambda>chatId txt reply_to. Inr ()),
      writeFileSync = (\<lambda>m. Inr ()),
      torn_write = Malformed\<rparr>"

definition private_message :: "jsstring \<Rightarrow> message" where
  "private_message t =
     \<lparr>msg_chat = \<lparr>chat_id = 7, chat_type = js ''private''\<rparr>,
      msg_from = Some \<lparr>user_id = 7\<rparr>, msg_text = Some t, message_id = 1\<rparr>"

definition group_message :: "jsstring \<Rightarrow> message" where
  "group_message t =
     \<lparr>msg_chat = \<lparr>chat_id = - 1001, chat_type = js ''supergroup''\<rparr>,
      msg_from = Some \<lparr>user_id = 7\<rparr>, msg_text = Some t, message_id = 1\<rparr>"

text \<open>An answer whose first content part is an image, followed by a text part.\<close>

definition image_reply :: "thread_message list" where
  "image_reply =
     [\<lparr>role = js ''assistant'', content = [NonTextContent, TextContent (js ''See the chart.'')]\<rparr>,
      \<lparr>role = js ''user'', content = [TextContent (js ''hi'')]\<rparr>]"

section \<open>Properties\<close>

subsection \<open>Decimal numerals and thread keys\<close>

lemma unat_digit: "d < 10 \<Longrightarrow> unat (digit d) = 48 + d"
  unfolding digit_def by (subst unat_of_nat) simp

lemma undecimal_decimal: "undecimal (decimal n) = n"
proof (induction n rule: decimal.induct)
  case (1 n)
  show ?case
  proof (cases "n < 10")
    case True
    then show ?thesis by (simp add: decimal.simps [of n] undecimal_def unat_digit)
  next
    case False
    with 1 have "undecimal (decimal (n div 10)) = n div 10" by simp
    with False show ?thesis
      by (simp add: decimal.simps [of n] undecimal_def unat_digit)
  qed
qed

lemma decimal_inj: "decimal n = decimal m \<Longrightarrow> n = m"
  by (metis undecimal_decimal)

lemma decimal_digits: "c \<in> set (decimal n) \<Longrightarrow> 48 \<le> unat c \<and> unat c \<le> 57"
proof (induction n rule: decimal.induct)
  case (1 n)
  show ?case
  proof (cases "n < 10")
    case True
    with 1(2) show ?thesis by (simp add: decimal.simps [of n] unat_digit)
  next
    case False
    with 1 show ?thesis
      by (auto simp: decimal.simps [of n] unat_digit)
  qed
qed

lemma decimal_nonempty: "decimal n \<noteq> []"
  by (subst decimal.simps) simp

lemma split_at_sep:
  assumes "xs @ c # ys = xs' @ c # ys'" "c \<notin> set xs" "c \<notin> set xs'"
  shows "xs = xs' \<and> ys = ys'"
proof -
  have tw: "c \<notin> set zs \<Longrightarrow> takeWhile (\<lambda>x. x \<noteq> c) (zs @ c # ws) = zs" for zs ws
    by (induction zs) auto
  from assms(1) have "takeWhile (\<lambda>x. x \<noteq> c) (xs @ c # ys) = takeWhile (\<lambda>x. x \<noteq> c) (xs' @ c # ys')"
    by simp
  with assms(2,3) have "xs = xs'" by (simp add: tw)
  with assms(1) show ?thesis by simp
qed

lemma Number_toString_chars:
  "c \<in> set (Number_toString i) \<Longrightarrow> c = 45 \<or> (48 \<le> unat c \<and> unat c \<le> 57)"
  by (auto simp: Number_toString_def js_def dest: decimal_digits split: if_splits)

lemma colon_notin_Number_toString: "(58 :: code_unit) \<notin> set (Number_toString i)"
proof
  assume "(58 :: code_unit) \<in> set (Number_toString i)"
  then have "(58 :: code_unit) = 45 \<or> (48 \<le> unat (58 :: code_unit) \<and> unat (58 :: code_unit) \<le> 57)"
    by (rule Number_toString_chars)
  then show False by simp
qed

lemma minus_decimal_neq: "js ''-'' @ decimal a \<noteq> decimal b"
proof
  assume "js ''-'' @ decimal a = decimal b"
  then have "45 # decimal a = decimal b" by (simp add: js_def)
  then have "(45 :: code_unit) \<in> set (decimal b)"
    by (metis list.set_intros(1))
  then have "48 \<le> unat (45 :: code_unit) \<and> unat (45 :: code_unit) \<le> 57"
    by (rule decimal_digits)
  then show False by simp
qed

lemma Number_toString_inj: "Number_toString i = Number_toString j \<Longrightarrow> i = j"
proof -
  assume eq: "Number_toString i = Number_toString j"
  show ?thesis
  proof (cases "i < 0"; cases "j < 0")
    assume "i < 0" "j < 0"
    with eq have "nat (- i) = nat (- j)" by (auto simp: Number_toString_def dest: decimal_inj)
    with \<open>i < 0\<close> \<open>j < 0\<close> show ?thesis by simp
  next
    assume "i < 0" "\<not> j < 0"
    with eq minus_decimal_neq [of "nat (- i)" "nat j"] show ?thesis
      by (simp add: Number_toString_def)
  next
    assume "\<not> i < 0" "j < 0"
    with eq minus_decimal_neq [of "nat (- j)" "nat i"] show ?thesis
      by (simp add: Number_toString_def)
  next
    assume "\<not> i < 0" "\<not> j < 0"
    with eq have "nat i = nat j" by (auto simp: Number_toString_def dest: decimal_inj)
    with \<open>\<not> i < 0\<close> \<open>\<not> j < 0\<close> show ?thesis by simp
  qed
qed

lemma undefined_not_number: "js ''undefined'' \<noteq> Number_toString i"
proof
  assume "js ''undefined'' = Number_toString i"
  then have "117 # js ''ndefined'' = Number_toString i" by (simp add: js_def)
  then have "(117 :: code_unit) \<in> set (Number_toString i)"
    by (metis list.set_intros(1))
  then have "(117 :: code_unit) = 45 \<or> (48 \<le> unat (117 :: code_unit) \<and> unat (117 :: code_unit) \<le> 57)"
    by (rule Number_toString_chars)
  then show False by simp
qed

lemma ToString_inj: "ToString u = ToString v \<Longrightarrow> u = v"
  using undefined_not_number
  by (cases u; cases v) (auto dest: Number_toString_inj simp: eq_commute [of "js ''undefined''"])

text \<open>
  Claim C8. The key of a (chat, user) pair determines the pair: two pairs have the same
  key exactly when they are the same pair. Ids are integers printed as decimal numerals
  (an absent user id prints as \<^verbatim>\<open>undefined\<close>), so neither part of the key contains the
  colon that separates them. The equation read from right to left is the second half of
  the claim: the same pair always gives the same key.
\<close>

theorem getThreadKey_injective:
  "(getThreadKey c u = getThreadKey c' u') = (c = c' \<and> u = u')"
proof
  assume "getThreadKey c u = getThreadKey c' u'"
  then have "Number_toString c @ 58 # ToString u = Number_toString c' @ 58 # ToString u'"
    by (simp add: getThreadKey_def js_def)
  then have "Number_toString c = Number_toString c' \<and> ToString u = ToString u'"
    by (rule split_at_sep) (rule colon_notin_Number_toString)+
  then show "c = c' \<and> u = u'"
    by (auto dest: Number_toString_inj ToString_inj)
qed simp

subsection \<open>Trimming, searching and replacing\<close>

lemma includes_js_sublist: "includes_js s t \<longleftrightarrow> sublist t s"
  by (induction s) (simp_all add: sublist_Cons_right)

lemma includes_js_iff: "includes_js s t \<longleftrightarrow> (\<exists>pre post. s = pre @ t @ post)"
  by (simp add: includes_js_sublist sublist_def)

lemma blank_iff: "blank s \<longleftrightarrow> (\<forall>c \<in> set s. isWhiteSpace c)"
  by (simp add: blank_def list_all_iff)

lemma trim_decomp: "\<exists>l r. s = l @ trim s @ r \<and> blank l \<and> blank r"
proof -
  let ?d = "dropWhile isWhiteSpace s"
  have 1: "s = takeWhile isWhiteSpace s @ ?d" by simp
  have "trim s @ rev (takeWhile isWhiteSpace (rev ?d)) =
      rev (takeWhile isWhiteSpace (rev ?d) @ dropWhile isWhiteSpace (rev ?d))"
    by (simp only: trim_def rev_append)
  also have "\<dots> = rev (rev ?d)" by (simp only: takeWhile_dropWhile_id)
  finally have 2: "?d = trim s @ rev (takeWhile isWhiteSpace (rev ?d))" by simp
  have 3: "blank (takeWhile isWhiteSpace s)"
    by (auto simp: blank_iff dest: set_takeWhileD)
  have 4: "blank (rev (takeWhile isWhiteSpace (rev ?d)))"
    by (auto simp: blank_iff dest: set_takeWhileD)
  from 1 2 have "s = takeWhile isWhiteSpace s @ trim s @ rev (takeWhile isWhiteSpace (rev ?d))"
    by simp
  with 3 4 show ?thesis by blast
qed

lemma includes_js_trimD: "includes_js (trim s) t \<Longrightarrow> includes_js s t"
proof -
  assume a: "includes_js (trim s) t"
  obtain l r where s: "s = l @ trim s @ r" using trim_decomp by blast
  from a obtain pre post where "trim s = pre @ t @ post" by (auto simp: includes_js_iff)
  with s have "s = (l @ pre) @ t @ (post @ r)" by simp
  then show ?thesis unfolding includes_js_iff by blast
qed

lemma trim_blank: "blank s \<Longrightarrow> trim s = []"
proof -
  assume "blank s"
  then have d: "dropWhile isWhiteSpace s = []" by (simp add: blank_iff)
  show ?thesis unfolding trim_def d by simp
qed

lemma trim_blank_left: "blank l \<Longrightarrow> trim (l @ x) = trim x"
proof -
  assume "blank l"
  then have "dropWhile isWhiteSpace (l @ x) = dropWhile isWhiteSpace x"
    by (intro dropWhile_append2) (simp add: blank_iff)
  then show ?thesis by (simp only: trim_def)
qed

lemma trim_blank_right: "blank r \<Longrightarrow> trim (x @ r) = trim x"
proof (cases "blank x")
  case True
  assume "blank r"
  with True have "blank (x @ r)" by (auto simp: blank_iff)
  with True show ?thesis by (simp only: trim_blank)
next
  case False
  assume r: "blank r"
  from False obtain c where "c \<in> set x" "\<not> isWhiteSpace c" by (auto simp: blank_iff)
  then have "dropWhile isWhiteSpace (x @ r) = dropWhile isWhiteSpace x @ r"
    by (rule dropWhile_append1)
  moreover have "dropWhile isWhiteSpace (rev r @ y) = dropWhile isWhiteSpace y" for y
    by (rule dropWhile_append2) (use r in \<open>simp add: blank_iff\<close>)
  ultimately show ?thesis by (simp add: trim_def)
qed

lemma prefix_blank_head:
  assumes "blank (c # l)" "t \<noteq> []" "\<not> isWhiteSpace (hd t)"
  shows "\<not> prefix t (c # l @ x)"
proof
  assume "prefix t (c # l @ x)"
  with assms(2) have "hd t = c" by (cases t) auto
  with assms(1,3) show False by (simp add: blank_iff)
qed

lemma includes_js_blank_left:
  "blank l \<Longrightarrow> t \<noteq> [] \<Longrightarrow> \<not> isWhiteSpace (hd t) \<Longrightarrow> includes_js (l @ x) t = includes_js x t"
proof (induction l)
  case Nil
  then show ?case by simp
next
  case (Cons c l)
  then have "\<not> prefix t (c # l @ x)" by (intro prefix_blank_head)
  moreover from Cons have "includes_js (l @ x) t = includes_js x t" by (simp add: blank_iff)
  ultimately show ?case by simp
qed

lemma replace_blank_left:
  "blank l \<Longrightarrow> t \<noteq> [] \<Longrightarrow> \<not> isWhiteSpace (hd t) \<Longrightarrow> replace (l @ x) t z = l @ replace x t z"
proof (induction l)
  case Nil
  then show ?case by simp
next
  case (Cons c l)
  then have "\<not> prefix t (c # l @ x)" by (intro prefix_blank_head)
  moreover from Cons have "replace (l @ x) t z = l @ replace x t z" by (simp add: blank_iff)
  ultimately show ?case by simp
qed

lemma includes_js_rev: "includes_js (rev s) (rev t) = includes_js s t"
  by (simp add: includes_js_sublist)

lemma includes_js_blank_right:
  assumes "blank r" "t \<noteq> []" "\<not> isWhiteSpace (last t)"
  shows "includes_js (x @ r) t = includes_js x t"
proof -
  have "includes_js (rev r @ rev x) (rev t) = includes_js (rev x) (rev t)"
    using assms by (intro includes_js_blank_left) (simp_all add: blank_iff hd_rev)
  then show ?thesis using includes_js_rev [of "x @ r" t] includes_js_rev [of x t] by simp
qed

lemma replace_append:
  "includes_js x t \<Longrightarrow> replace (x @ r) t z = replace x t z @ r"
proof (induction x)
  case Nil
  then show ?case by (cases r) simp_all
next
  case (Cons c x)
  show ?case
  proof (cases "prefix t (c # x)")
    case True
    then have "prefix t (c # x @ r)" using prefix_prefix [of t "c # x" r] by simp
    moreover from True have "length t \<le> length (c # x)" by (rule prefix_length_le)
    then have "drop (length t) (c # x @ r) = drop (length t) (c # x) @ r"
      by (cases t) auto
    ultimately show ?thesis using True by simp
  next
    case False
    with Cons.prems have inc: "includes_js x t" by simp
    then have "length t \<le> length x" by (auto simp: includes_js_iff)
    have "\<not> prefix t (c # x @ r)"
    proof
      assume "prefix t (c # x @ r)"
      then have "prefix t (c # x)"
        using prefix_append [of t "c # x" r] \<open>length t \<le> length x\<close> by auto
      with False show False ..
    qed
    with False inc Cons.IH show ?thesis by simp
  qed
qed

lemma not_sublist_butlast: "t \<noteq> [] \<Longrightarrow> \<not> includes_js (butlast t) t"
proof
  assume t: "t \<noteq> []" and "includes_js (butlast t) t"
  then obtain pre post where "butlast t = pre @ t @ post" by (auto simp: includes_js_iff)
  then have "length (butlast t) = length (pre @ t @ post)" by simp
  moreover from t have "0 < length t" by simp
  ultimately show False unfolding length_butlast length_append by arith
qed

lemma first_occurrence:
  "includes_js s t \<Longrightarrow> t \<noteq> [] \<Longrightarrow>
   \<exists>pre post. s = pre @ t @ post \<and> \<not> includes_js (pre @ butlast t) t \<and>
     replace s t z = pre @ z @ post"
proof (induction s)
  case Nil
  then show ?case by simp
next
  case (Cons c s)
  show ?case
  proof (cases "prefix t (c # s)")
    case True
    then obtain post where cs: "c # s = t @ post" by (auto simp: prefix_def)
    have "drop (length t) (c # s) = post" unfolding cs by simp
    with True have "replace (c # s) t z = [] @ z @ post" by simp
    moreover from cs have "c # s = [] @ t @ post" by simp
    moreover from Cons.prems(2) have "\<not> includes_js ([] @ butlast t) t"
      by (simp add: not_sublist_butlast)
    ultimately show ?thesis by blast
  next
    case False
    with Cons.prems have "includes_js s t" by simp
    with Cons obtain pre post where
      s: "s = pre @ t @ post" and n: "\<not> includes_js (pre @ butlast t) t"
      and r: "replace s t z = pre @ z @ post" by blast
    have "\<not> prefix t (c # pre @ butlast t)"
    proof
      assume "prefix t (c # pre @ butlast t)"
      moreover have "c # s = (c # pre @ butlast t) @ (last t # post)"
        using s Cons.prems(2) by simp
      ultimately have "prefix t (c # s)"
        using prefix_prefix [of t "c # pre @ butlast t" "last t # post"] by simp
      with False show False ..
    qed
    with n have "\<not> includes_js ((c # pre) @ butlast t) t" by simp
    moreover from s have "c # s = (c # pre) @ t @ post" by simp
    moreover from r False have "replace (c # s) t z = (c # pre) @ z @ post" by simp
    ultimately show ?thesis by blast
  qed
qed

subsection \<open>Evaluation on concrete inputs\<close>

lemmas fixture_defs = ok_world_def private_message_def group_message_def default_config_def
lemmas run_defs = webhook_def dispatch_def try_block_def catch_block_def bot_sendMessage_def
  res_sendStatus_def runAssistant_def getOrCreateThread_def saveThreads_def emit_def
  getThreadKey_def Number_toString_def decimal.simps digit_def truthy_def clean_text_def
  mentionTag_def trim_def isWhiteSpace_def js_def boot_def reply_text_def assistantMessage_def
  first_text_value_def no_response_def error_reply_def Let_def

subsection \<open>The thread store\<close>

lemma update_absent: "k \<notin> fst ` set al \<Longrightarrow> AList.update k v al = al @ [(k, v)]"
  by (induction al) auto

lemma truthy_Some: "truthy (Some v) \<longleftrightarrow> v \<noteq> []"
  by (simp add: truthy_def)

lemma truthy_the: "truthy x \<Longrightarrow> x = Some (the x) \<and> the x \<noteq> []"
  by (cases x) (simp_all add: truthy_def)

lemma getOrCreateThread_hit:
  "map_of (threads s) (getThreadKey c u) = Some v \<Longrightarrow> v \<noteq> [] \<Longrightarrow>
   getOrCreateThread w c u s = (Inr v, s)"
  by (simp add: getOrCreateThread_def truthy_def)

lemma getOrCreateThread_miss:
  assumes "\<not> truthy (map_of (threads s) (getThreadKey c u))"
    and "getOrCreateThread w c u s = (Inr i, s')"
  shows "threads_create w = Inr i \<and>
     s' = \<lparr>threads = AList.update (getThreadKey c u) i (threads s),
           THREADS_FILE = Json (AList.update (getThreadKey c u) i (threads s)),
           trace = trace s @ [ThreadsCreate,
             WriteFile (AList.update (getThreadKey c u) i (threads s))]\<rparr>"
  using assms
  by (auto simp: getOrCreateThread_def saveThreads_def emit_def Let_def
      split: sum.splits)

lemma getOrCreateThread_stored:
  assumes "getOrCreateThread w c u s = (Inr i, s')"
  shows "map_of (threads s') (getThreadKey c u) = Some i"
proof (cases "truthy (map_of (threads s) (getThreadKey c u))")
  case True
  with assms show ?thesis
    by (auto simp: getOrCreateThread_def dest: truthy_the)
next
  case False
  from getOrCreateThread_miss [OF False assms] show ?thesis
    by (simp add: update_conv')
qed

lemma getOrCreateThread_store:
  assumes "getOrCreateThread w c u s = (r, s')"
  shows "threads s' = threads s \<or>
    (\<not> truthy (map_of (threads s) (getThreadKey c u)) \<and>
     (\<exists>i. threads_create w = Inr i \<and>
        threads s' = AList.update (getThreadKey c u) i (threads s)))"
  using assms
  by (auto simp: getOrCreateThread_def saveThreads_def emit_def Let_def
      split: sum.splits if_splits)

lemma getOrCreateThread_trace:
  assumes "getOrCreateThread w c u s = (r, s')"
  shows "\<exists>es. trace s' = trace s @ es \<and> filter is_send es = []"
  using assms
  by (auto simp: getOrCreateThread_def saveThreads_def emit_def Let_def
      split: sum.splits if_splits)

lemma runAssistant_store:
  assumes "runAssistant cfg w c u txt s = (r, s')"
  shows "threads s' = threads s \<or>
    (\<not> truthy (map_of (threads s) (getThreadKey c u)) \<and>
     (\<exists>i. threads_create w = Inr i \<and>
        threads s' = AList.update (getThreadKey c u) i (threads s)))"
proof -
  obtain r1 s1 where g: "getOrCreateThread w c u s = (r1, s1)" by (cases "getOrCreateThread w c u s")
  with assms have "threads s' = threads s1"
    by (auto simp: runAssistant_def emit_def Let_def split: sum.splits if_splits)
  with getOrCreateThread_store [OF g] show ?thesis by simp
qed

lemma runAssistant_trace:
  assumes "runAssistant cfg w c u txt s = (r, s')"
  shows "\<exists>es. trace s' = trace s @ es \<and> filter is_send es = []"
proof -
  obtain r1 s1 where g: "getOrCreateThread w c u s = (r1, s1)" by (cases "getOrCreateThread w c u s")
  from getOrCreateThread_trace [OF g] obtain es where
    es: "trace s1 = trace s @ es" "filter is_send es = []" by blast
  from assms g have "\<exists>fs. trace s' = trace s1 @ fs \<and> filter is_send fs = []"
    by (auto simp: runAssistant_def emit_def Let_def split: sum.splits if_splits)
  then obtain fs where "trace s' = trace s1 @ fs" "filter is_send fs = []" by blast
  with es have "trace s' = trace s @ (es @ fs) \<and> filter is_send (es @ fs) = []" by simp
  then show ?thesis by blast
qed

lemma dispatch_store:
  assumes "dispatch cfg w m x s = (r, s')"
  shows "threads s' = threads s \<or>
    (\<exists>k i. \<not> truthy (map_of (threads s) k) \<and> threads_create w = Inr i \<and>
        threads s' = AList.update k i (threads s))"
proof -
  obtain r1 s1 where
    run: "runAssistant cfg w (chat_id (msg_chat m)) (map_option user_id (msg_from m)) x s = (r1, s1)"
    by (cases "runAssistant cfg w (chat_id (msg_chat m)) (map_option user_id (msg_from m)) x s")
  with assms have "threads s' = threads s1"
    by (auto simp: dispatch_def try_block_def catch_block_def bot_sendMessage_def
        res_sendStatus_def emit_def split: prod.splits sum.splits)
  with runAssistant_store [OF run] show ?thesis by auto
qed

lemma webhook_store:
  assumes "webhook cfg w body s = (r, s')"
  shows "threads s' = threads s \<or>
    (\<exists>k i. \<not> truthy (map_of (threads s) k) \<and> threads_create w = Inr i \<and>
        threads s' = AList.update k i (threads s))"
proof (cases "\<exists>m x. dispatch cfg w m x s = (r, s')")
  case True
  then show ?thesis using dispatch_store by blast
next
  case False
  with assms have "s' = emit (SendStatus 200) s"
    by (auto simp: webhook_def res_sendStatus_def split: option.splits if_splits)
  then show ?thesis by (simp add: emit_def)
qed

lemma ids_nonempty_iff: "ids_nonempty m \<longleftrightarrow> (\<forall>k v. (k, v) \<in> set m \<longrightarrow> v \<noteq> [])"
  by (auto simp: ids_nonempty_def list_all_iff)

lemma not_truthy_absent:
  assumes "ids_nonempty m" "\<not> truthy (map_of m k)"
  shows "k \<notin> fst ` set m"
proof
  assume "k \<in> fst ` set m"
  then have "map_of m k \<noteq> None" by (simp add: map_of_eq_None_iff)
  then obtain v where v: "map_of m k = Some v" by blast
  then have "(k, v) \<in> set m" by (rule map_of_SomeD)
  with assms(1) have "v \<noteq> []" by (auto simp: ids_nonempty_iff)
  with v assms(2) show False by (simp add: truthy_def)
qed

lemma reachable_invariant:
  "reachable cfg s \<Longrightarrow> ids_nonempty (threads s) \<and> distinct (map fst (threads s))"
proof (induction rule: reachable.induct)
  case (start f)
  then show ?case by (simp add: boot_def)
next
  case (request s w body r s')
  from webhook_store [OF request.hyps(3)] show ?case
  proof
    assume "threads s' = threads s"
    with request.IH show ?thesis by simp
  next
    assume "\<exists>k i. \<not> truthy (map_of (threads s) k) \<and> threads_create w = Inr i \<and>
        threads s' = AList.update k i (threads s)"
    then obtain k i where k: "\<not> truthy (map_of (threads s) k)"
      and i: "threads_create w = Inr i" and t: "threads s' = AList.update k i (threads s)"
      by blast
    from request.IH k have "k \<notin> fst ` set (threads s)" by (simp add: not_truthy_absent)
    then have "threads s' = threads s @ [(k, i)]" using t by (simp add: update_absent)
    moreover from i request.hyps(2) have "i \<noteq> []" by auto
    ultimately show ?thesis using request.IH \<open>k \<notin> fst ` set (threads s)\<close>
      by (auto simp: ids_nonempty_iff)
  qed
qed

text \<open>
  Claim C9. In every reachable state, handling a request (the only operation that reaches
  the store after start-up; \<open>runAssistant\<close> and \<open>getOrCreateThread\<close> run inside it)
  keeps every binding of the \<^verbatim>\<open>threads\<close> object as it is: the object is either unchanged
  or extended at the end by one binding for a key that was not there, and no key occurs
  twice. So a pair never has more than one context id in a sequential execution.
\<close>

theorem entries_never_overwritten:
  assumes "reachable cfg s" and "webhook cfg w body s = (r, s')"
  shows "(\<forall>k v. map_of (threads s) k = Some v \<longrightarrow> map_of (threads s') k = Some v) \<and>
    (threads s' = threads s \<or>
     (\<exists>k v. k \<notin> fst ` set (threads s) \<and> threads s' = threads s @ [(k, v)])) \<and>
    distinct (map fst (threads s'))"
proof -
  from assms(1) have inv: "ids_nonempty (threads s)" "distinct (map fst (threads s))"
    by (simp_all add: reachable_invariant)
  from webhook_store [OF assms(2)] show ?thesis
  proof
    assume "threads s' = threads s"
    with inv show ?thesis by simp
  next
    assume "\<exists>k i. \<not> truthy (map_of (threads s) k) \<and> threads_create w = Inr i \<and>
        threads s' = AList.update k i (threads s)"
    then obtain k i where k: "\<not> truthy (map_of (threads s) k)"
      and t: "threads s' = AList.update k i (threads s)"
      by blast
    from inv k have absent: "k \<notin> fst ` set (threads s)" by (simp add: not_truthy_absent)
    then have app: "threads s' = threads s @ [(k, i)]" using t by (simp add: update_absent)
    have "map_of (threads s') k' = Some v" if "map_of (threads s) k' = Some v" for k' v
      using that by (simp add: app)
    moreover from inv absent have "distinct (map fst (threads s'))" by (simp add: app)
    ultimately show ?thesis using absent app by blast
  qed
qed

theorem entries_never_overwritten_witness:
  "reachable (default_config (js ''asst_1'')) (boot (Json [(js ''7:7'', js ''thread_0'')])) \<and>
   webhook (default_config (js ''asst_1'')) ok_world
       (Some (group_message (js ''@ScopeShield_Bot hi''))) (boot (Json [(js ''7:7'', js ''thread_0'')])) =
     (Inr (),
      \<lparr>threads = [(js ''7:7'', js ''thread_0''), (js ''-1001:7'', js ''thread_1'')],
       THREADS_FILE = Json [(js ''7:7'', js ''thread_0''), (js ''-1001:7'', js ''thread_1'')],
       trace = [ThreadsCreate,
         WriteFile [(js ''7:7'', js ''thread_0''), (js ''-1001:7'', js ''thread_1'')],
         MessagesCreate (js ''thread_1'') (js ''hi''),
         RunsCreateAndPoll (js ''thread_1'') (js ''asst_1''),
         MessagesList (js ''thread_1'') 5,
         SendMessage (- 1001) (js ''Hello'') (Some 1), SendStatus 200]\<rparr>) \<and>
   map_of [(js ''7:7'', js ''thread_0''), (js ''-1001:7'', js ''thread_1'')] (js ''7:7'') =
     Some (js ''thread_0'')"
proof -
  let ?s = "boot (Json [(js ''7:7'', js ''thread_0'')])"
  let ?s' = "\<lparr>threads = [(js ''7:7'', js ''thread_0''), (js ''-1001:7'', js ''thread_1'')],
       THREADS_FILE = Json [(js ''7:7'', js ''thread_0''), (js ''-1001:7'', js ''thread_1'')],
       trace = [ThreadsCreate,
         WriteFile [(js ''7:7'', js ''thread_0''), (js ''-1001:7'', js ''thread_1'')],
         MessagesCreate (js ''thread_1'') (js ''hi''),
         RunsCreateAndPoll (js ''thread_1'') (js ''asst_1''),
         MessagesList (js ''thread_1'') 5,
         SendMessage (- 1001) (js ''Hello'') (Some 1), SendStatus 200]\<rparr>"
  have 1: "reachable (default_config (js ''asst_1'')) ?s"
    by (rule reachable.start) (simp_all add: ids_nonempty_def js_def)
  have 2: "webhook (default_config (js ''asst_1'')) ok_world
       (Some (group_message (js ''@ScopeShield_Bot hi''))) ?s = (Inr (), ?s')"
    by (simp add: fixture_defs run_defs)
  have 3: "map_of (threads ?s) (js ''7:7'') = Some (js ''thread_0'')"
    by (simp add: boot_def)
  from entries_never_overwritten [OF 1 2] 3
  have "map_of (threads ?s') (js ''7:7'') = Some (js ''thread_0'')" by blast
  with 1 2 show ?thesis by simp
qed

text \<open>
  Claim C1, as amended. When a call of \<open>getOrCreateThread\<close> returns a non-empty id, a
  second call for the same pair, whatever the collaborators would answer, returns the
  same id and leaves the state as it is: no mutation, no write, no call. What the first
  call did depends on the store before it. If the pair had no entry, it appended exactly one
  entry, for this pair, and wrote the whole object to the file. If the pair had a non-empty
  id stored, it was a lookup and changed nothing. If the pair had an empty id stored, it
  replaced that id in place (same keys, same order) and wrote the whole object to the file.
\<close>

theorem getOrCreateThread_twice:
  assumes "getOrCreateThread w1 c u s = (Inr i, s1)" and "i \<noteq> []"
  shows "getOrCreateThread w2 c u s1 = (Inr i, s1) \<and>
    (getThreadKey c u \<notin> fst ` set (threads s) \<longrightarrow>
       threads s1 = threads s @ [(getThreadKey c u, i)] \<and>
       THREADS_FILE s1 = Json (threads s1) \<and>
       trace s1 = trace s @ [ThreadsCreate, WriteFile (threads s1)]) \<and>
    (truthy (map_of (threads s) (getThreadKey c u)) \<longrightarrow> s1 = s) \<and>
    (map_of (threads s) (getThreadKey c u) = Some [] \<longrightarrow>
       threads s1 = AList.update (getThreadKey c u) i (threads s) \<and>
       map fst (threads s1) = map fst (threads s) \<and>
       THREADS_FILE s1 = Json (threads s1) \<and>
       trace s1 = trace s @ [ThreadsCreate, WriteFile (threads s1)])"
proof -
  from assms have again: "getOrCreateThread w2 c u s1 = (Inr i, s1)"
    by (intro getOrCreateThread_hit getOrCreateThread_stored)
  have fresh: "threads s1 = threads s @ [(getThreadKey c u, i)] \<and>
       THREADS_FILE s1 = Json (threads s1) \<and>
       trace s1 = trace s @ [ThreadsCreate, WriteFile (threads s1)]"
    if absent: "getThreadKey c u \<notin> fst ` set (threads s)"
  proof -
    from absent have "map_of (threads s) (getThreadKey c u) = None"
      by (simp add: map_of_eq_None_iff)
    then have "\<not> truthy (map_of (threads s) (getThreadKey c u))" by (simp add: truthy_def)
    from getOrCreateThread_miss [OF this assms(1)] absent show ?thesis
      by (simp add: update_absent)
  qed
  have known: "s1 = s" if "truthy (map_of (threads s) (getThreadKey c u))"
    using that assms(1) by (simp add: getOrCreateThread_def)
  have empty: "threads s1 = AList.update (getThreadKey c u) i (threads s) \<and>
       map fst (threads s1) = map fst (threads s) \<and>
       THREADS_FILE s1 = Json (threads s1) \<and>
       trace s1 = trace s @ [ThreadsCreate, WriteFile (threads s1)]"
    if e: "map_of (threads s) (getThreadKey c u) = Some []"
  proof -
    from e have "\<not> truthy (map_of (threads s) (getThreadKey c u))" by (simp add: truthy_def)
    from getOrCreateThread_miss [OF this assms(1)]
    have s1: "s1 = \<lparr>threads = AList.update (getThreadKey c u) i (threads s),
           THREADS_FILE = Json (AList.update (getThreadKey c u) i (threads s)),
           trace = trace s @ [ThreadsCreate,
             WriteFile (AList.update (getThreadKey c u) i (threads s))]\<rparr>" by simp
    from e have "getThreadKey c u \<in> set (map fst (threads s))"
      by (metis map_of_eq_None_iff option.distinct(1) set_map)
    then have "map fst (AList.update (getThreadKey c u) i (threads s)) = map fst (threads s)"
      by (simp add: update_keys)
    with s1 show ?thesis by simp
  qed
  from again fresh known empty show ?thesis by blast
qed

theorem getOrCreateThread_twice_witness:
  "getOrCreateThread ok_world 7 (Some 7) (boot NoFile) =
     (Inr (js ''thread_1''),
      \<lparr>threads = [(js ''7:7'', js ''thread_1'')],
       THREADS_FILE = Json [(js ''7:7'', js ''thread_1'')],
       trace = [ThreadsCreate, WriteFile [(js ''7:7'', js ''thread_1'')]]\<rparr>) \<and>
   js ''thread_1'' \<noteq> [] \<and>
   getThreadKey 7 (Some 7) \<notin> fst ` set (threads (boot NoFile)) \<and>
   getOrCreateThread (ok_world\<lparr>threads_create := Inr (js ''thread_2'')\<rparr>) 7 (Some 7)
     \<lparr>threads = [(js ''7:7'', js ''thread_1'')],
       THREADS_FILE = Json [(js ''7:7'', js ''thread_1'')],
       trace = [ThreadsCreate, WriteFile [(js ''7:7'', js ''thread_1'')]]\<rparr> =
     (Inr (js ''thread_1''),
      \<lparr>threads = [(js ''7:7'', js ''thread_1'')],
       THREADS_FILE = Json [(js ''7:7'', js ''thread_1'')],
       trace = [ThreadsCreate, WriteFile [(js ''7:7'', js ''thread_1'')]]\<rparr>) \<and>
   threads \<lparr>threads = [(js ''7:7'', js ''thread_1'')],
       THREADS_FILE = Json [(js ''7:7'', js ''thread_1'')],
       trace = [ThreadsCreate, WriteFile [(js ''7:7'', js ''thread_1'')]]\<rparr> =
     threads (boot NoFile) @ [(getThreadKey 7 (Some 7), js ''thread_1'')] \<and>
   getOrCreateThread ok_world 7 (Some 7)
     \<lparr>threads = [(js ''7:7'', []), (js ''8:8'', js ''thread_0'')],
       THREADS_FILE = Json [(js ''7:7'', []), (js ''8:8'', js ''thread_0'')], trace = []\<rparr> =
     (Inr (js ''thread_1''),
      \<lparr>threads = [(js ''7:7'', js ''thread_1''), (js ''8:8'', js ''thread_0'')],
       THREADS_FILE = Json [(js ''7:7'', js ''thread_1''), (js ''8:8'', js ''thread_0'')],
       trace = [ThreadsCreate,
         WriteFile [(js ''7:7'', js ''thread_1''), (js ''8:8'', js ''thread_0'')]]\<rparr>) \<and>
   map_of [(js ''7:7'', []), (js ''8:8'', js ''thread_0'')] (getThreadKey 7 (Some 7)) = Some [] \<and>
   map fst [(js ''7:7'', js ''thread_1''), (js ''8:8'', js ''thread_0'')] =
     map fst [(js ''7:7'', []), (js ''8:8'', js ''thread_0'')] \<and>
   truthy (map_of [(js ''7:7'', js ''thread_1'')] (getThreadKey 7 (Some 7)))"
proof -
  let ?s1 = "\<lparr>threads = [(js ''7:7'', js ''thread_1'')],
       THREADS_FILE = Json [(js ''7:7'', js ''thread_1'')],
       trace = [ThreadsCreate, WriteFile [(js ''7:7'', js ''thread_1'')]]\<rparr>"
  let ?w2 = "ok_world\<lparr>threads_create := Inr (js ''thread_2'')\<rparr>"
  let ?e = "\<lparr>threads = [(js ''7:7'', []), (js ''8:8'', js ''thread_0'')],
       THREADS_FILE = Json [(js ''7:7'', []), (js ''8:8'', js ''thread_0'')], trace = []\<rparr>"
  let ?e1 = "\<lparr>threads = [(js ''7:7'', js ''thread_1''), (js ''8:8'', js ''thread_0'')],
       THREADS_FILE = Json [(js ''7:7'', js ''thread_1''), (js ''8:8'', js ''thread_0'')],
       trace = [ThreadsCreate,
         WriteFile [(js ''7:7'', js ''thread_1''), (js ''8:8'', js ''thread_0'')]]\<rparr>"
  have 1: "getOrCreateThread ok_world 7 (Some 7) (boot NoFile) = (Inr (js ''thread_1''), ?s1)"
    by (simp add: fixture_defs run_defs)
  have 2: "js ''thread_1'' \<noteq> []" by (simp add: js_def)
  have 3: "getThreadKey 7 (Some 7) \<notin> fst ` set (threads (boot NoFile))"
    by (simp add: boot_def)
  note inst = getOrCreateThread_twice [OF 1 2, of ?w2]
  from inst have 4: "getOrCreateThread ?w2 7 (Some 7) ?s1 = (Inr (js ''thread_1''), ?s1)"
    by (rule conjunct1)
  from inst have "getThreadKey 7 (Some 7) \<notin> fst ` set (threads (boot NoFile)) \<longrightarrow>
      threads ?s1 = threads (boot NoFile) @ [(getThreadKey 7 (Some 7), js ''thread_1'')] \<and>
      THREADS_FILE ?s1 = Json (threads ?s1) \<and>
      trace ?s1 = trace (boot NoFile) @ [ThreadsCreate, WriteFile (threads ?s1)]"
    by (rule conjunct2 [THEN conjunct1])
  from this 3 have "threads ?s1 = threads (boot NoFile) @ [(getThreadKey 7 (Some 7), js ''thread_1'')] \<and>
      THREADS_FILE ?s1 = Json (threads ?s1) \<and>
      trace ?s1 = trace (boot NoFile) @ [ThreadsCreate, WriteFile (threads ?s1)]"
    by (rule mp)
  then have 5: "threads ?s1 = threads (boot NoFile) @ [(getThreadKey 7 (Some 7), js ''thread_1'')]"
    by (rule conjunct1)
  have 6: "getOrCreateThread ok_world 7 (Some 7) ?e = (Inr (js ''thread_1''), ?e1)"
    by (simp add: fixture_defs run_defs)
  have 7: "map_of (threads ?e) (getThreadKey 7 (Some 7)) = Some []"
    by (simp add: run_defs)
  from getOrCreateThread_twice [OF 6 2, of ok_world]
  have "map_of (threads ?e) (getThreadKey 7 (Some 7)) = Some [] \<longrightarrow>
       threads ?e1 = AList.update (getThreadKey 7 (Some 7)) (js ''thread_1'') (threads ?e) \<and>
       map fst (threads ?e1) = map fst (threads ?e) \<and>
       THREADS_FILE ?e1 = Json (threads ?e1) \<and>
       trace ?e1 = trace ?e @ [ThreadsCreate, WriteFile (threads ?e1)]"
    by (elim conjE)
  from this 7 have "threads ?e1 = AList.update (getThreadKey 7 (Some 7)) (js ''thread_1'') (threads ?e) \<and>
       map fst (threads ?e1) = map fst (threads ?e) \<and>
       THREADS_FILE ?e1 = Json (threads ?e1) \<and>
       trace ?e1 = trace ?e @ [ThreadsCreate, WriteFile (threads ?e1)]"
    by (rule mp)
  then have "map fst (threads ?e1) = map fst (threads ?e)"
    by (elim conjE)
  then have 8: "map fst [(js ''7:7'', js ''thread_1''), (js ''8:8'', js ''thread_0'')] =
     map fst [(js ''7:7'', []), (js ''8:8'', js ''thread_0'')]"
    by (simp only: state.simps)
  from 7 have 9: "map_of [(js ''7:7'', []), (js ''8:8'', js ''thread_0'')] (getThreadKey 7 (Some 7)) = Some []"
    by simp
  have 10: "truthy (map_of (threads ?s1) (getThreadKey 7 (Some 7)))"
    by (simp add: run_defs)
  from 10 have 11: "truthy (map_of [(js ''7:7'', js ''thread_1'')] (getThreadKey 7 (Some 7)))"
    by simp
  from 1 2 3 4 5 6 9 8 11 show ?thesis by (intro conjI)
qed

text \<open>
  Claim C1 as stated fails in two ways. For a pair that is already in the store the first
  call is a lookup too: the content after it is the prior content, not that content
  extended with a new entry. And the test on line 63 is a test of truthiness: after a call
  that stored and returned the empty string, the next call does not find the entry; it
  creates a thread again, writes again and returns another id.
\<close>

theorem first_call_counterexample:
  "getOrCreateThread ok_world 7 (Some 7) (boot (Json [(js ''7:7'', js ''thread_0'')])) =
     (Inr (js ''thread_0''), boot (Json [(js ''7:7'', js ''thread_0'')])) \<and>
   threads (boot (Json [(js ''7:7'', js ''thread_0'')])) = [(js ''7:7'', js ''thread_0'')] \<and>
   THREADS_FILE (boot (Json [(js ''7:7'', js ''thread_0'')])) = Json [(js ''7:7'', js ''thread_0'')] \<and>
   getOrCreateThread (ok_world\<lparr>threads_create := Inr []\<rparr>) 7 (Some 7) (boot NoFile) =
     (Inr [],
      \<lparr>threads = [(js ''7:7'', [])], THREADS_FILE = Json [(js ''7:7'', [])],
       trace = [ThreadsCreate, WriteFile [(js ''7:7'', [])]]\<rparr>) \<and>
   getOrCreateThread ok_world 7 (Some 7)
      \<lparr>threads = [(js ''7:7'', [])], THREADS_FILE = Json [(js ''7:7'', [])],
       trace = [ThreadsCreate, WriteFile [(js ''7:7'', [])]]\<rparr> =
     (Inr (js ''thread_1''),
      \<lparr>threads = [(js ''7:7'', js ''thread_1'')],
       THREADS_FILE = Json [(js ''7:7'', js ''thread_1'')],
       trace = [ThreadsCreate, WriteFile [(js ''7:7'', [])],
                ThreadsCreate, WriteFile [(js ''7:7'', js ''thread_1'')]]\<rparr>)"
  by (simp add: fixture_defs run_defs)

subsection \<open>What a request sends to the backend and keeps in the store\<close>

lemma forwarded_append: "forwarded (es @ fs) = forwarded es @ forwarded fs"
  by (induction es rule: forwarded.induct) simp_all

lemma getOrCreateThread_forwarded:
  assumes "getOrCreateThread w c u s = (r, s')"
  shows "\<exists>es. trace s' = trace s @ es \<and> forwarded es = []"
  using assms
  by (auto simp: getOrCreateThread_def saveThreads_def emit_def Let_def
      split: sum.splits if_splits)


lemma runAssistant_forwarded:
  assumes "runAssistant cfg w c u x s = (r, s')"
  shows "\<exists>es. trace s' = trace s @ es \<and>
    forwarded es = (case fst (getOrCreateThread w c u s) of
                      Inl e \<Rightarrow> [] | Inr thread \<Rightarrow> [(thread, x)])"
proof -
  obtain r1 s1 where g: "getOrCreateThread w c u s = (r1, s1)"
    by (cases "getOrCreateThread w c u s")
  from getOrCreateThread_forwarded [OF g] obtain es where
    es: "trace s1 = trace s @ es" "forwarded es = []" by blast
  from assms g have "\<exists>fs. trace s' = trace s1 @ fs \<and>
      forwarded fs = (case r1 of Inl e \<Rightarrow> [] | Inr thread \<Rightarrow> [(thread, x)])"
    by (auto simp: runAssistant_def emit_def Let_def split: sum.splits if_splits)
  then obtain fs where fs: "trace s' = trace s1 @ fs"
    "forwarded fs = (case r1 of Inl e \<Rightarrow> [] | Inr thread \<Rightarrow> [(thread, x)])" by blast
  from es fs g have "trace s' = trace s @ (es @ fs) \<and>
      forwarded (es @ fs) = (case fst (getOrCreateThread w c u s) of
                      Inl e \<Rightarrow> [] | Inr thread \<Rightarrow> [(thread, x)])"
    by (simp add: forwarded_append)
  then show ?thesis by blast
qed

lemma dispatch_after_runAssistant:
  assumes "dispatch cfg w m x s = (r, s')"
    and "runAssistant cfg w (chat_id (msg_chat m)) (map_option user_id (msg_from m)) x s = (r1, s1)"
  shows "threads s' = threads s1 \<and> (\<exists>fs. trace s' = trace s1 @ fs \<and> forwarded fs = [])"
  using assms
  by (auto simp: dispatch_def try_block_def catch_block_def bot_sendMessage_def
      res_sendStatus_def emit_def split: prod.splits sum.splits)

lemma dispatch_forwarded:
  assumes "dispatch cfg w m x s = (r, s')"
  shows "\<exists>es. trace s' = trace s @ es \<and>
    forwarded es =
      (case fst (getOrCreateThread w (chat_id (msg_chat m)) (map_option user_id (msg_from m)) s) of
         Inl e \<Rightarrow> [] | Inr thread \<Rightarrow> [(thread, x)])"
proof -
  obtain r1 s1 where
    run: "runAssistant cfg w (chat_id (msg_chat m)) (map_option user_id (msg_from m)) x s = (r1, s1)"
    by (cases "runAssistant cfg w (chat_id (msg_chat m)) (map_option user_id (msg_from m)) x s")
  from runAssistant_forwarded [OF run] obtain es where
    es: "trace s1 = trace s @ es"
    "forwarded es =
      (case fst (getOrCreateThread w (chat_id (msg_chat m)) (map_option user_id (msg_from m)) s) of
         Inl e \<Rightarrow> [] | Inr thread \<Rightarrow> [(thread, x)])" by blast
  from dispatch_after_runAssistant [OF assms run] obtain fs where
    fs: "trace s' = trace s1 @ fs" "forwarded fs = []" by blast
  from es fs have "trace s' = trace s @ (es @ fs) \<and>
    forwarded (es @ fs) =
      (case fst (getOrCreateThread w (chat_id (msg_chat m)) (map_option user_id (msg_from m)) s) of
         Inl e \<Rightarrow> [] | Inr thread \<Rightarrow> [(thread, x)])"
    by (simp add: forwarded_append)
  then show ?thesis by blast
qed


lemma webhook_dispatch:
  "msg_text m = Some t \<Longrightarrow> t \<noteq> [] \<Longrightarrow> clean_text cfg m t = Some x \<Longrightarrow>
   webhook cfg w (Some m) s = dispatch cfg w m x s"
  by (simp add: webhook_def)



subsection \<open>The webhook handler: which text reaches the assistant\<close>

text \<open>
  Claim C6. A message of a chat that is not private, whose text does not contain the
  mention tag, is acknowledged and nothing else happens: the handler returns normally, the
  only effect it adds is \<^verbatim>\<open>res.sendStatus(200)\<close> (no call to the chat transport, none to
  the assistant backend, no write), and the \<^verbatim>\<open>threads\<close> object and the file are as before.
\<close>

theorem silent_ignore:
  "chat_type (msg_chat m) \<noteq> js ''private'' \<Longrightarrow> msg_text m = Some t \<Longrightarrow>
   \<not> includes_js t (mentionTag cfg) \<Longrightarrow>
   webhook cfg w (Some m) s = (Inr (), s\<lparr>trace := trace s @ [SendStatus 200]\<rparr>)"
  by (auto simp: webhook_def clean_text_def res_sendStatus_def emit_def Let_def dest: includes_js_trimD)

theorem silent_ignore_witness:
  "chat_type (msg_chat (group_message (js ''hello all''))) \<noteq> js ''private'' \<and>
   msg_text (group_message (js ''hello all'')) = Some (js ''hello all'') \<and>
   \<not> includes_js (js ''hello all'') (mentionTag (default_config (js ''asst_1''))) \<and>
   webhook (default_config (js ''asst_1'')) ok_world (Some (group_message (js ''hello all'')))
       (boot NoFile) =
     (Inr (), (boot NoFile)\<lparr>trace := trace (boot NoFile) @ [SendStatus 200]\<rparr>)"
proof -
  have 1: "chat_type (msg_chat (group_message (js ''hello all''))) \<noteq> js ''private''"
    by (simp add: group_message_def js_def)
  have 2: "msg_text (group_message (js ''hello all'')) = Some (js ''hello all'')"
    by (simp add: group_message_def)
  have 3: "\<not> includes_js (js ''hello all'') (mentionTag (default_config (js ''asst_1'')))"
    by (simp add: mentionTag_def default_config_def js_def)
  from silent_ignore [OF 1 2 3] 1 2 3 show ?thesis by blast
qed

text \<open>
  Claim C5, as amended. For a message of a private chat with non-empty text, the handler
  appends to the thread it resolves exactly one text, the message text with white space
  trimmed from both ends (line 124 trims before the chat type is looked at) and with the
  mention tag left in; it appends nothing when no thread can be resolved.
\<close>

theorem private_trimmed:
  assumes "chat_type (msg_chat m) = js ''private''" and "msg_text m = Some t" and "t \<noteq> []"
  shows "clean_text cfg m t = Some (trim t) \<and>
    (\<exists>es. trace (snd (webhook cfg w (Some m) s)) = trace s @ es \<and>
       forwarded es =
         (case fst (getOrCreateThread w (chat_id (msg_chat m))
                      (map_option user_id (msg_from m)) s) of
            Inl e \<Rightarrow> [] | Inr thread \<Rightarrow> [(thread, trim t)]))"
proof -
  from assms have c: "clean_text cfg m t = Some (trim t)"
    by (simp add: clean_text_def Let_def)
  obtain r s' where d: "dispatch cfg w m (trim t) s = (r, s')"
    by (cases "dispatch cfg w m (trim t) s")
  from assms(2,3) c have "webhook cfg w (Some m) s = dispatch cfg w m (trim t) s"
    by (rule webhook_dispatch)
  with d dispatch_forwarded [OF d] c show ?thesis by simp
qed

theorem private_trimmed_witness:
  "chat_type (msg_chat (private_message (js '' hi ''))) = js ''private'' \<and>
   msg_text (private_message (js '' hi '')) = Some (js '' hi '') \<and> js '' hi '' \<noteq> [] \<and>
   (\<exists>es. trace (snd (webhook (default_config (js ''asst_1'')) ok_world
                (Some (private_message (js '' hi ''))) (boot NoFile))) =
            trace (boot NoFile) @ es \<and>
      forwarded es = [(js ''thread_1'', js ''hi'')]) \<and>
   trace (snd (webhook (default_config (js ''asst_1'')) ok_world
                (Some (private_message (js '' hi ''))) (boot NoFile))) =
     [ThreadsCreate, WriteFile [(js ''7:7'', js ''thread_1'')],
      MessagesCreate (js ''thread_1'') (js ''hi''),
      RunsCreateAndPoll (js ''thread_1'') (js ''asst_1''),
      MessagesList (js ''thread_1'') 5,
      SendMessage 7 (js ''Hello'') (Some 1), SendStatus 200]"
proof -
  let ?m = "private_message (js '' hi '')"
  have run: "trace (snd (webhook (default_config (js ''asst_1'')) ok_world (Some ?m) (boot NoFile))) =
     [ThreadsCreate, WriteFile [(js ''7:7'', js ''thread_1'')],
      MessagesCreate (js ''thread_1'') (js ''hi''),
      RunsCreateAndPoll (js ''thread_1'') (js ''asst_1''),
      MessagesList (js ''thread_1'') 5,
      SendMessage 7 (js ''Hello'') (Some 1), SendStatus 200]"
    by (simp add: fixture_defs run_defs)
  have 1: "chat_type (msg_chat ?m) = js ''private''"
    by (simp add: private_message_def)
  have 2: "msg_text ?m = Some (js '' hi '')"
    by (simp add: private_message_def)
  have 3: "js '' hi '' \<noteq> []" by (simp add: js_def)
  have 4: "trim (js '' hi '') = js ''hi''" by (simp add: trim_def js_def isWhiteSpace_def)
  have 5: "fst (getOrCreateThread ok_world (chat_id (msg_chat ?m))
      (map_option user_id (msg_from ?m)) (boot NoFile)) = Inr (js ''thread_1'')"
    by (simp add: fixture_defs run_defs)
  from private_trimmed [OF 1 2 3, of "default_config (js ''asst_1'')" ok_world "boot NoFile"]
  have "\<exists>es. trace (snd (webhook (default_config (js ''asst_1'')) ok_world (Some ?m) (boot NoFile))) =
            trace (boot NoFile) @ es \<and>
      forwarded es = [(js ''thread_1'', js ''hi'')]"
    unfolding 4 5 by simp
  with 1 2 3 run show ?thesis by (intro conjI)
qed

text \<open>
  Claim C5 as stated fails: the private message \<^verbatim>\<open>" hi "\<close> reaches the backend as
  \<^verbatim>\<open>"hi"\<close>, not character for character.
\<close>

theorem private_verbatim_counterexample:
  "fst (webhook (default_config (js ''asst_1'')) ok_world
          (Some (private_message (js '' hi ''))) (boot NoFile)) = Inr () \<and>
   MessagesCreate (js ''thread_1'') (js ''hi'') \<in>
     set (trace (snd (webhook (default_config (js ''asst_1'')) ok_world
          (Some (private_message (js '' hi ''))) (boot NoFile)))) \<and>
   MessagesCreate (js ''thread_1'') (js '' hi '') \<notin>
     set (trace (snd (webhook (default_config (js ''asst_1'')) ok_world
          (Some (private_message (js '' hi ''))) (boot NoFile))))"
  by (simp add: fixture_defs run_defs)

lemma mentionTag_props: "mentionTag cfg \<noteq> [] \<and> \<not> isWhiteSpace (hd (mentionTag cfg))"
  by (simp add: mentionTag_def js_def isWhiteSpace_def)

lemma trim_replace_trim:
  assumes inc: "includes_js t tag" and ne: "tag \<noteq> []"
    and h: "\<not> isWhiteSpace (hd tag)" and l: "\<not> isWhiteSpace (last tag)"
  shows "includes_js (trim t) tag \<and> trim (replace (trim t) tag z) = trim (replace t tag z)"
proof -
  obtain a b where t: "t = a @ trim t @ b" and a: "blank a" and b: "blank b"
    using trim_decomp by blast
  from inc t have "includes_js (a @ trim t @ b) tag" by simp
  with a ne h have "includes_js (trim t @ b) tag" by (simp add: includes_js_blank_left)
  with b ne l have m: "includes_js (trim t) tag" by (simp add: includes_js_blank_right)
  have "replace t tag z = replace (a @ trim t @ b) tag z" using t by simp
  also have "\<dots> = a @ replace (trim t @ b) tag z" using a ne h by (rule replace_blank_left)
  also have "\<dots> = a @ replace (trim t) tag z @ b" using m by (simp add: replace_append)
  finally have "trim (replace t tag z) = trim (a @ replace (trim t) tag z @ b)" by simp
  also have "\<dots> = trim (replace (trim t) tag z @ b)" using a by (rule trim_blank_left)
  also have "\<dots> = trim (replace (trim t) tag z)" using b by (rule trim_blank_right)
  finally show ?thesis using m by simp
qed

lemma trim_replace_trim':
  assumes inc: "includes_js (trim t) tag" and ne: "tag \<noteq> []"
    and h: "\<not> isWhiteSpace (hd tag)"
  shows "trim (replace (trim t) tag z) = trim (replace t tag z)"
proof -
  obtain a b where t: "t = a @ trim t @ b" and a: "blank a" and b: "blank b"
    using trim_decomp by blast
  have "replace t tag z = replace (a @ trim t @ b) tag z" using t by simp
  also have "\<dots> = a @ replace (trim t @ b) tag z" using a ne h by (rule replace_blank_left)
  also have "\<dots> = a @ replace (trim t) tag z @ b" using inc by (simp add: replace_append)
  finally have "trim (replace t tag z) = trim (a @ replace (trim t) tag z @ b)" by simp
  also have "\<dots> = trim (replace (trim t) tag z @ b)" using a by (rule trim_blank_left)
  also have "\<dots> = trim (replace (trim t) tag z)" using b by (rule trim_blank_right)
  finally show ?thesis by simp
qed

lemma includes_js_trim_iff:
  assumes "\<not> isWhiteSpace (last (mentionTag cfg))"
  shows "includes_js (trim t) (mentionTag cfg) = includes_js t (mentionTag cfg)"
  using assms mentionTag_props [of cfg] trim_replace_trim [of t "mentionTag cfg"] includes_js_trimD
  by blast

lemma mention_removed:
  assumes "chat_type (msg_chat m) \<noteq> js ''private''" and "msg_text m = Some t"
    and "includes_js (trim t) (mentionTag cfg)"
  shows "\<exists>pre post es.
       t = pre @ mentionTag cfg @ post \<and>
       \<not> includes_js (pre @ butlast (mentionTag cfg)) (mentionTag cfg) \<and>
       trace (snd (webhook cfg w (Some m) s)) = trace s @ es \<and>
       forwarded es =
         (case fst (getOrCreateThread w (chat_id (msg_chat m))
                      (map_option user_id (msg_from m)) s) of
            Inl e \<Rightarrow> [] | Inr thread \<Rightarrow> [(thread, trim (pre @ post))])"
proof -
  let ?tag = "mentionTag cfg"
  have tag: "?tag \<noteq> []" "\<not> isWhiteSpace (hd ?tag)"
    using mentionTag_props by simp_all
  from assms(3) tag have tr: "trim (replace (trim t) ?tag []) = trim (replace t ?tag [])"
    by (rule trim_replace_trim')
  from assms(3) have "includes_js t ?tag" by (rule includes_js_trimD)
  with tag obtain pre post where
    t: "t = pre @ ?tag @ post" and first: "\<not> includes_js (pre @ butlast ?tag) ?tag"
    and r: "replace t ?tag [] = pre @ [] @ post"
    using first_occurrence [of t ?tag "[]"] by blast
  from t tag have ne: "t \<noteq> []" by simp
  from assms tr r have c: "clean_text cfg m t = Some (trim (pre @ post))"
    by (simp add: clean_text_def Let_def)
  obtain r' s' where d: "dispatch cfg w m (trim (pre @ post)) s = (r', s')"
    by (cases "dispatch cfg w m (trim (pre @ post)) s")
  from assms(2) ne c have "webhook cfg w (Some m) s = dispatch cfg w m (trim (pre @ post)) s"
    by (rule webhook_dispatch)
  with d dispatch_forwarded [OF d] obtain es where
    "trace (snd (webhook cfg w (Some m) s)) = trace s @ es"
    "forwarded es =
         (case fst (getOrCreateThread w (chat_id (msg_chat m))
                      (map_option user_id (msg_from m)) s) of
            Inl e \<Rightarrow> [] | Inr thread \<Rightarrow> [(thread, trim (pre @ post))])"
    by auto
  with t first show ?thesis by blast
qed

text \<open>
  Claim C4, as amended. In a chat that is not private, for a message whose trimmed text
  contains the mention tag, the handler appends to the thread it resolves exactly one
  text: the original text without the first occurrence of the tag, trimmed. The text
  splits as \<open>pre @ tag @ post\<close> with no earlier occurrence of the tag, and
  \<open>trim (pre @ post)\<close> is what is appended. (When the tag does not end in white space, as
  with every Telegram user name, the trimmed text contains the tag exactly when the text
  does: \<open>includes_js_trim_iff\<close>.) The example of the claim is the second part.
\<close>

theorem mention_removed_and_trimmed:
  "(chat_type (msg_chat m) \<noteq> js ''private'' \<and> msg_text m = Some t \<and>
    includes_js (trim t) (mentionTag cfg) \<longrightarrow>
    (\<exists>pre post es.
       t = pre @ mentionTag cfg @ post \<and>
       \<not> includes_js (pre @ butlast (mentionTag cfg)) (mentionTag cfg) \<and>
       trace (snd (webhook cfg w (Some m) s)) = trace s @ es \<and>
       forwarded es =
         (case fst (getOrCreateThread w (chat_id (msg_chat m))
                      (map_option user_id (msg_from m)) s) of
            Inl e \<Rightarrow> [] | Inr thread \<Rightarrow> [(thread, trim (pre @ post))]))) \<and>
   (\<exists>es. trace (snd (webhook (default_config a) w
               (Some (group_message (js ''@ScopeShield_Bot  what is the refund policy?''))) s)) =
            trace s @ es \<and>
      forwarded es =
        (case fst (getOrCreateThread w (- 1001) (Some 7) s) of
           Inl e \<Rightarrow> [] | Inr thread \<Rightarrow> [(thread, js ''what is the refund policy?'')]))"
proof (intro conjI impI)
  assume "chat_type (msg_chat m) \<noteq> js ''private'' \<and> msg_text m = Some t \<and>
    includes_js (trim t) (mentionTag cfg)"
  then show "\<exists>pre post es.
       t = pre @ mentionTag cfg @ post \<and>
       \<not> includes_js (pre @ butlast (mentionTag cfg)) (mentionTag cfg) \<and>
       trace (snd (webhook cfg w (Some m) s)) = trace s @ es \<and>
       forwarded es =
         (case fst (getOrCreateThread w (chat_id (msg_chat m))
                      (map_option user_id (msg_from m)) s) of
            Inl e \<Rightarrow> [] | Inr thread \<Rightarrow> [(thread, trim (pre @ post))])"
    using mention_removed by blast
next
  let ?t = "js ''@ScopeShield_Bot  what is the refund policy?''"
  let ?m = "group_message ?t"
  have c: "clean_text (default_config a) ?m ?t = Some (js ''what is the refund policy?'')"
    by (simp add: clean_text_def Let_def default_config_def group_message_def mentionTag_def
        trim_def isWhiteSpace_def js_def)
  have 1: "msg_text ?m = Some ?t" by (simp add: group_message_def)
  have 2: "?t \<noteq> []" by (simp add: js_def)
  have 3: "chat_id (msg_chat ?m) = - 1001" "map_option user_id (msg_from ?m) = Some 7"
    by (simp_all add: group_message_def)
  obtain r' s' where d: "dispatch (default_config a) w ?m (js ''what is the refund policy?'') s = (r', s')"
    by (cases "dispatch (default_config a) w ?m (js ''what is the refund policy?'') s")
  from 1 2 c have "webhook (default_config a) w (Some ?m) s =
      dispatch (default_config a) w ?m (js ''what is the refund policy?'') s"
    by (rule webhook_dispatch)
  with d dispatch_forwarded [OF d] show "\<exists>es. trace (snd (webhook (default_config a) w (Some ?m) s)) =
            trace s @ es \<and>
      forwarded es =
        (case fst (getOrCreateThread w (- 1001) (Some 7) s) of
           Inl e \<Rightarrow> [] | Inr thread \<Rightarrow> [(thread, js ''what is the refund policy?'')])"
    unfolding 3 by simp
qed

theorem mention_removed_and_trimmed_witness:
  "chat_type (msg_chat (group_message (js ''hey @ScopeShield_Bot hello ''))) \<noteq> js ''private'' \<and>
   msg_text (group_message (js ''hey @ScopeShield_Bot hello '')) =
     Some (js ''hey @ScopeShield_Bot hello '') \<and>
   includes_js (trim (js ''hey @ScopeShield_Bot hello ''))
     (mentionTag (default_config (js ''asst_1''))) \<and>
   (\<exists>pre post es.
       js ''hey @ScopeShield_Bot hello '' = pre @ mentionTag (default_config (js ''asst_1'')) @ post \<and>
       trace (snd (webhook (default_config (js ''asst_1'')) ok_world
          (Some (group_message (js ''hey @ScopeShield_Bot hello ''))) (boot NoFile))) =
         trace (boot NoFile) @ es \<and>
       forwarded es = [(js ''thread_1'', trim (pre @ post))]) \<and>
   trace (snd (webhook (default_config (js ''asst_1'')) ok_world
          (Some (group_message (js ''hey @ScopeShield_Bot hello ''))) (boot NoFile))) =
     [ThreadsCreate, WriteFile [(js ''-1001:7'', js ''thread_1'')],
      MessagesCreate (js ''thread_1'') (js ''hey  hello''),
      RunsCreateAndPoll (js ''thread_1'') (js ''asst_1''),
      MessagesList (js ''thread_1'') 5,
      SendMessage (- 1001) (js ''Hello'') (Some 1), SendStatus 200]"
proof -
  let ?t = "js ''hey @ScopeShield_Bot hello ''"
  have run: "trace (snd (webhook (default_config (js ''asst_1'')) ok_world
          (Some (group_message ?t)) (boot NoFile))) =
     [ThreadsCreate, WriteFile [(js ''-1001:7'', js ''thread_1'')],
      MessagesCreate (js ''thread_1'') (js ''hey  hello''),
      RunsCreateAndPoll (js ''thread_1'') (js ''asst_1''),
      MessagesList (js ''thread_1'') 5,
      SendMessage (- 1001) (js ''Hello'') (Some 1), SendStatus 200]"
    by (simp add: fixture_defs run_defs)
  let ?m = "group_message ?t"
  let ?cfg = "default_config (js ''asst_1'')"
  have h: "chat_type (msg_chat ?m) \<noteq> js ''private'' \<and> msg_text ?m = Some ?t \<and>
      includes_js (trim ?t) (mentionTag ?cfg)"
    by (simp add: group_message_def mentionTag_def default_config_def js_def isWhiteSpace_def
        trim_def)
  have g: "fst (getOrCreateThread ok_world (chat_id (msg_chat ?m))
      (map_option user_id (msg_from ?m)) (boot NoFile)) = Inr (js ''thread_1'')"
    by (simp add: fixture_defs run_defs)
  from mention_removed_and_trimmed [of ?m ?t ?cfg ok_world "boot NoFile", THEN conjunct1,
      rule_format, OF h]
  have "\<exists>pre post es. ?t = pre @ mentionTag ?cfg @ post \<and>
       trace (snd (webhook ?cfg ok_world (Some ?m) (boot NoFile))) = trace (boot NoFile) @ es \<and>
       forwarded es = [(js ''thread_1'', trim (pre @ post))]"
    unfolding g by auto
  with h run show ?thesis by (intro conjI) simp_all
qed

text \<open>
  Claim C4 as stated fails when the configured bot name ends in white space: line 130
  looks for the tag in the trimmed text, so a text that ends with the tag contains it and
  is ignored all the same.
\<close>

theorem tag_ending_in_space_counterexample:
  "chat_type (msg_chat (group_message (js ''hi @Bot ''))) \<noteq> js ''private'' \<and>
   includes_js (js ''hi @Bot '')
     (mentionTag \<lparr>BOT_USERNAME = js ''Bot '', ASSISTANT_ID = js ''asst_1''\<rparr>) \<and>
   webhook \<lparr>BOT_USERNAME = js ''Bot '', ASSISTANT_ID = js ''asst_1''\<rparr> ok_world
       (Some (group_message (js ''hi @Bot ''))) (boot NoFile) =
     (Inr (), \<lparr>threads = [], THREADS_FILE = NoFile, trace = [SendStatus 200]\<rparr>)"
  by (simp add: fixture_defs run_defs)




subsection \<open>The reply of the assistant\<close>

lemma reply_text_nonempty: "reply_text data \<noteq> []"
  by (auto simp: reply_text_def Let_def no_response_def js_def dest: truthy_the)

text \<open>
  Claim C7, as amended. When the thread is resolved, the message appended, the run
  completed and the list fetched, \<open>runAssistant\<close> returns, and what it returns is not
  empty. It is the text value of the first content part of the first message of the list
  whose role is \<^verbatim>\<open>assistant\<close>, when that value exists and is not empty; it is the literal
  \<^verbatim>\<open>No response generated.\<close> when the list has no such message, and also when that
  message has no content part, a first part that is not text, or an empty text value.
\<close>

theorem reply_text_or_fallback:
  assumes "getOrCreateThread w c u s = (Inr i, s1)"
    and "messages_create w i x = Inr ()"
    and "runs_createAndPoll w i (ASSISTANT_ID cfg) = Inr (js ''completed'')"
    and "messages_list w i 5 = Inr data"
  shows "\<exists>r s'. runAssistant cfg w c u x s = (Inr r, s') \<and> r \<noteq> [] \<and>
    (assistantMessage data = None \<longrightarrow> r = no_response) \<and>
    (\<forall>v. first_text_value (assistantMessage data) = Some v \<and> v \<noteq> [] \<longrightarrow> r = v) \<and>
    (\<not> truthy (first_text_value (assistantMessage data)) \<longrightarrow> r = no_response)"
proof -
  from assms have run: "runAssistant cfg w c u x s =
      (Inr (reply_text data), emit (MessagesList i 5)
         (emit (RunsCreateAndPoll i (ASSISTANT_ID cfg)) (emit (MessagesCreate i x) s1)))"
    by (simp add: runAssistant_def Let_def)
  have none: "assistantMessage data = None \<longrightarrow> reply_text data = no_response"
    by (simp add: reply_text_def first_text_value_def truthy_def)
  have some: "\<forall>v. first_text_value (assistantMessage data) = Some v \<and> v \<noteq> [] \<longrightarrow>
      reply_text data = v"
    by (simp add: reply_text_def truthy_def)
  have other: "\<not> truthy (first_text_value (assistantMessage data)) \<longrightarrow>
      reply_text data = no_response"
    by (simp add: reply_text_def)
  show ?thesis
    by (intro exI conjI) (rule run, rule reply_text_nonempty, rule none, rule some, rule other)
qed

text \<open>
  Claim C7 as stated fails in the direction "only if": the list below has an entry of
  the assistant, whose first content part is an image, and the literal is returned.
\<close>

theorem fallback_with_assistant_entry_counterexample:
  "fst (runAssistant (default_config (js ''asst_1''))
          (ok_world\<lparr>messages_list := (\<lambda>thread limit. Inr image_reply)\<rparr>)
          7 (Some 7) (js ''hi'') (boot NoFile)) = Inr (js ''No response generated.'') \<and>
   assistantMessage image_reply =
     Some \<lparr>role = js ''assistant'', content = [NonTextContent, TextContent (js ''See the chart.'')]\<rparr>"
  by (simp add: fixture_defs run_defs image_reply_def)

theorem reply_text_or_fallback_witness:
  "getOrCreateThread ok_world 7 (Some 7) (boot NoFile) =
     (Inr (js ''thread_1''),
      \<lparr>threads = [(js ''7:7'', js ''thread_1'')],
       THREADS_FILE = Json [(js ''7:7'', js ''thread_1'')],
       trace = [ThreadsCreate, WriteFile [(js ''7:7'', js ''thread_1'')]]\<rparr>) \<and>
   messages_create ok_world (js ''thread_1'') (js ''hi'') = Inr () \<and>
   runs_createAndPoll ok_world (js ''thread_1'') (ASSISTANT_ID (default_config (js ''asst_1''))) =
     Inr (js ''completed'') \<and>
   messages_list ok_world (js ''thread_1'') 5 =
     Inr [\<lparr>role = js ''assistant'', content = [TextContent (js ''Hello'')]\<rparr>,
          \<lparr>role = js ''user'', content = [TextContent (js ''hi'')]\<rparr>] \<and>
   (\<exists>s'. runAssistant (default_config (js ''asst_1'')) ok_world 7 (Some 7) (js ''hi'') (boot NoFile) =
     (Inr (js ''Hello''), s'))"
proof -
  let ?s1 = "\<lparr>threads = [(js ''7:7'', js ''thread_1'')],
       THREADS_FILE = Json [(js ''7:7'', js ''thread_1'')],
       trace = [ThreadsCreate, WriteFile [(js ''7:7'', js ''thread_1'')]]\<rparr>"
  let ?data = "[\<lparr>role = js ''assistant'', content = [TextContent (js ''Hello'')]\<rparr>,
          \<lparr>role = js ''user'', content = [TextContent (js ''hi'')]\<rparr>]"
  have 1: "getOrCreateThread ok_world 7 (Some 7) (boot NoFile) = (Inr (js ''thread_1''), ?s1)"
    by (simp add: fixture_defs run_defs)
  have 2: "messages_create ok_world (js ''thread_1'') (js ''hi'') = Inr ()"
    by (simp add: ok_world_def)
  have 3: "runs_createAndPoll ok_world (js ''thread_1'')
      (ASSISTANT_ID (default_config (js ''asst_1''))) = Inr (js ''completed'')"
    by (simp add: ok_world_def)
  have 4: "messages_list ok_world (js ''thread_1'') 5 = Inr ?data"
    by (simp add: ok_world_def)
  have 5: "first_text_value (assistantMessage ?data) = Some (js ''Hello'') \<and> js ''Hello'' \<noteq> []"
    by (simp add: first_text_value_def assistantMessage_def js_def)
  from reply_text_or_fallback [OF 1 2 3 4] obtain r s' where
    run: "runAssistant (default_config (js ''asst_1'')) ok_world 7 (Some 7) (js ''hi'')
      (boot NoFile) = (Inr r, s')"
    and v: "\<forall>v. first_text_value (assistantMessage ?data) = Some v \<and> v \<noteq> [] \<longrightarrow> r = v"
    by (elim exE conjE)
  from v 5 have "r = js ''Hello''" by (elim allE impE) assumption+
  with run have "\<exists>s'. runAssistant (default_config (js ''asst_1'')) ok_world 7 (Some 7) (js ''hi'')
      (boot NoFile) = (Inr (js ''Hello''), s')" by (intro exI [of _ s']) simp
  with 1 2 3 4 show ?thesis by (intro conjI)
qed

subsection \<open>Errors and the acknowledgement\<close>

text \<open>
  When \<open>runAssistant\<close> fails and the chat transport accepts the reply, the handler
  returns normally, the only call it makes to the chat transport is the one that sends
  \<^verbatim>\<open>Error processing your request.\<close>, and its last effect is \<^verbatim>\<open>res.sendStatus(200)\<close>.
\<close>

lemma fallback_reply_when_send_accepted:
  assumes "msg_text m = Some t" and "t \<noteq> []" and "clean_text cfg m t = Some x"
    and "runAssistant cfg w (chat_id (msg_chat m)) (map_option user_id (msg_from m)) x s =
      (Inl err, s1)"
    and "sendMessage w (chat_id (msg_chat m)) error_reply None = Inr ()"
  shows "\<exists>es. webhook cfg w (Some m) s = (Inr (), s1\<lparr>trace := trace s @ es\<rparr>) \<and>
    filter is_send es = [SendMessage (chat_id (msg_chat m)) (js ''Error processing your request.'') None] \<and>
    last es = SendStatus 200"
proof -
  from runAssistant_trace [OF assms(4)] obtain es where
    es: "trace s1 = trace s @ es" "filter is_send es = []" by blast
  let ?fs = "es @ [ConsoleError (js ''Assistant error: '' @ message err),
      SendMessage (chat_id (msg_chat m)) error_reply None, SendStatus 200]"
  from assms es(1) have "webhook cfg w (Some m) s = (Inr (), s1\<lparr>trace := trace s @ ?fs\<rparr>)"
    by (simp add: webhook_def dispatch_def try_block_def catch_block_def bot_sendMessage_def
        res_sendStatus_def emit_def)
  moreover from es(2) have "filter is_send ?fs =
      [SendMessage (chat_id (msg_chat m)) (js ''Error processing your request.'') None]"
    by (simp add: error_reply_def)
  moreover have "last ?fs = SendStatus 200" by simp
  ultimately show ?thesis by blast
qed

lemma runAssistant_run_failed:
  assumes "getOrCreateThread w c u s = (Inr i, s1)"
    and "messages_create w i x = Inr ()"
    and "runs_createAndPoll w i (ASSISTANT_ID cfg) = Inr status"
    and "status \<noteq> js ''completed''"
  shows "fst (runAssistant cfg w c u x s) =
    Inl (Error (js ''Assistant run failed with status: '' @ status))"
  using assms by (simp add: runAssistant_def Let_def)

text \<open>
  Claim C2, on a private message \<^verbatim>\<open>hi\<close> when the run ends with status \<^verbatim>\<open>failed\<close>
  and the chat transport refuses the send (the user has blocked the bot): \<open>runAssistant\<close>
  fails, the \<^verbatim>\<open>catch\<close> block tries to send \<^verbatim>\<open>Error processing your request.\<close>, that
  send fails, and the handler ends with its error. \<^verbatim>\<open>res.sendStatus(200)\<close> on line 149
  is never reached.
\<close>

theorem adapter_failure_unacknowledged:
  "fst (runAssistant (default_config (js ''asst_1''))
          (ok_world\<lparr>runs_createAndPoll := (\<lambda>thread assistant. Inr (js ''failed'')),
                     sendMessage := (\<lambda>chatId x reply_to. Inl (Error (js ''403 Forbidden'')))\<rparr>)
          7 (Some 7) (js ''hi'') (boot NoFile)) =
     Inl (Error (js ''Assistant run failed with status: failed'')) \<and>
   webhook (default_config (js ''asst_1''))
       (ok_world\<lparr>runs_createAndPoll := (\<lambda>thread assistant. Inr (js ''failed'')),
                  sendMessage := (\<lambda>chatId x reply_to. Inl (Error (js ''403 Forbidden'')))\<rparr>)
       (Some (private_message (js ''hi''))) (boot NoFile) =
     (Inl (Error (js ''403 Forbidden'')),
      \<lparr>threads = [(js ''7:7'', js ''thread_1'')],
       THREADS_FILE = Json [(js ''7:7'', js ''thread_1'')],
       trace = [ThreadsCreate, WriteFile [(js ''7:7'', js ''thread_1'')],
         MessagesCreate (js ''thread_1'') (js ''hi''),
         RunsCreateAndPoll (js ''thread_1'') (js ''asst_1''),
         ConsoleError (js ''Assistant error: Assistant run failed with status: failed''),
         SendMessage 7 (js ''Error processing your request.'') None]\<rparr>) \<and>
   SendStatus 200 \<notin> set (trace (snd (webhook (default_config (js ''asst_1''))
       (ok_world\<lparr>runs_createAndPoll := (\<lambda>thread assistant. Inr (js ''failed'')),
                  sendMessage := (\<lambda>chatId x reply_to. Inl (Error (js ''403 Forbidden'')))\<rparr>)
       (Some (private_message (js ''hi''))) (boot NoFile))))"
  by (simp add: fixture_defs run_defs)

text \<open>
  Claim C3, on a private message \<^verbatim>\<open>hi\<close> when the chat transport refuses both sends
  (the user has blocked the bot): the assistant answers, the reply cannot be sent, the
  \<^verbatim>\<open>catch\<close> block tries to send the error text and fails as well, and the handler ends
  with that error. \<^verbatim>\<open>res.sendStatus(200)\<close> on line 149 is never reached.
\<close>

theorem fallback_send_failure_unacknowledged:
  "webhook (default_config (js ''asst_1''))
       (ok_world\<lparr>sendMessage := (\<lambda>chatId x reply_to. Inl (Error (js ''403 Forbidden'')))\<rparr>)
       (Some (private_message (js ''hi''))) (boot NoFile) =
     (Inl (Error (js ''403 Forbidden'')),
      \<lparr>threads = [(js ''7:7'', js ''thread_1'')],
       THREADS_FILE = Json [(js ''7:7'', js ''thread_1'')],
       trace = [ThreadsCreate, WriteFile [(js ''7:7'', js ''thread_1'')],
         MessagesCreate (js ''thread_1'') (js ''hi''),
         RunsCreateAndPoll (js ''thread_1'') (js ''asst_1''),
         MessagesList (js ''thread_1'') 5,
         SendMessage 7 (js ''Hello'') (Some 1),
         ConsoleError (js ''Assistant error: 403 Forbidden''),
         SendMessage 7 (js ''Error processing your request.'') None]\<rparr>) \<and>
   SendStatus 200 \<notin> set (trace (snd (webhook (default_config (js ''asst_1''))
       (ok_world\<lparr>sendMessage := (\<lambda>chatId x reply_to. Inl (Error (js ''403 Forbidden'')))\<rparr>)
       (Some (private_message (js ''hi''))) (boot NoFile))))"
  by (simp add: fixture_defs run_defs)

text \<open>
  For an update whose message has a chat and a string text, that is the only way for the
  handler to end without an acknowledgement: it ends either normally, with
  \<^verbatim>\<open>res.sendStatus(200)\<close> as its last effect, or with the error of the send on line 146.
\<close>

lemma webhook_acknowledged_unless_fallback_fails:
  assumes "webhook cfg w body s = (r, s')"
  shows "(r = Inr () \<and> last (trace s') = SendStatus 200) \<or>
    (\<exists>m e. body = Some m \<and> r = Inl e \<and>
       r = sendMessage w (chat_id (msg_chat m)) error_reply None)"
  using assms
  by (auto simp: webhook_def dispatch_def try_block_def catch_block_def bot_sendMessage_def
      res_sendStatus_def emit_def split: option.splits if_splits prod.splits sum.splits)
    metis+

end
